theory Spec2Isabelle
  imports Main "HOL-Library.Word"
begin

section \<open>The ROS base sink of gst\_bridge (rosbasesink.cpp)\<close>

text \<open>
  A shallow embedding of \<^verbatim>\<open>gst_bridge/src/rosbasesink.cpp\<close>: the GStreamer sink base class
  that opens a ROS node when the element goes from NULL to READY, samples the offset between
  the pipeline clock and the ROS clock on the way into PLAYING, stamps every rendered buffer,
  and closes the node on the way back to NULL.

  Every function of the source takes the sink by pointer and mutates it; here it takes the sink
  record and returns the updated record, together with the list of externally visible actions
  it performed, in program order. A function that dereferences a pointer that may be null
  returns \<open>None\<close> where the pointer is null.
\<close>

subsection \<open>GStreamer and ROS types used by the sink\<close>

text \<open>\<^verbatim>\<open>GstClockTime\<close> is \<^verbatim>\<open>guint64\<close> and \<^verbatim>\<open>GstClockTimeDiff\<close> is \<^verbatim>\<open>gint64\<close>: both are 64-bit
  words, the second read with \<open>sint\<close>. Addition wraps around, as in C on these types.\<close>

type_synonym GstClockTime = "64 word"
type_synonym GstClockTimeDiff = "64 word"

datatype GstStateChange =
    GST_STATE_CHANGE_NULL_TO_READY
  | GST_STATE_CHANGE_READY_TO_PAUSED
  | GST_STATE_CHANGE_PAUSED_TO_PLAYING
  | GST_STATE_CHANGE_PLAYING_TO_PAUSED
  | GST_STATE_CHANGE_PAUSED_TO_READY
  | GST_STATE_CHANGE_READY_TO_NULL
  | GST_STATE_CHANGE_NULL_TO_NULL
  | GST_STATE_CHANGE_READY_TO_READY
  | GST_STATE_CHANGE_PAUSED_TO_PAUSED
  | GST_STATE_CHANGE_PLAYING_TO_PLAYING

datatype GstStateChangeReturn =
    GST_STATE_CHANGE_FAILURE
  | GST_STATE_CHANGE_SUCCESS
  | GST_STATE_CHANGE_ASYNC
  | GST_STATE_CHANGE_NO_PREROLL

datatype GstFlowReturn =
    GST_FLOW_OK
  | GST_FLOW_NOT_LINKED
  | GST_FLOW_FLUSHING
  | GST_FLOW_EOS
  | GST_FLOW_NOT_NEGOTIATED
  | GST_FLOW_ERROR
  | GST_FLOW_NOT_SUPPORTED

text \<open>A buffer carries its presentation timestamp (\<^verbatim>\<open>GST_BUFFER_PTS\<close>) and its payload.\<close>

record GstBuffer =
  pts :: GstClockTime
  payload :: "8 word list"

text \<open>Caps are handled through a \<^verbatim>\<open>GstCaps *\<close>, which may be \<^verbatim>\<open>NULL\<close>; the sink never looks
  inside them.\<close>

type_synonym GstCaps = string

datatype rcl_clock_type = RCL_CLOCK_UNINITIALIZED | RCL_ROS_TIME | RCL_SYSTEM_TIME | RCL_STEADY_TIME

text \<open>An \<^verbatim>\<open>rclcpp::Context\<close> is valid after \<^verbatim>\<open>init\<close> and until \<^verbatim>\<open>shutdown\<close>, which records its
  reason.\<close>

datatype Context = Context_valid | Context_shutdown string

datatype Logger = Logger string
datatype Clock = Clock rcl_clock_type
datatype Node = Node string string

record Time =
  nanoseconds :: "64 word"
  clock_type :: rcl_clock_type

definition context_shutdown :: "Context \<Rightarrow> string \<Rightarrow> Context" where
  "context_shutdown c reason =
     (case c of Context_valid \<Rightarrow> Context_shutdown reason | Context_shutdown r \<Rightarrow> Context_shutdown r)"

fun get_logger :: "Node \<Rightarrow> Logger" where
  "get_logger (Node name ns) = Logger name"

fun get_clock :: "Node \<Rightarrow> Clock" where
  "get_clock (Node name ns) = Clock RCL_ROS_TIME"

fun get_clock_type :: "Clock \<Rightarrow> rcl_clock_type" where
  "get_clock_type (Clock t) = t"

subsection \<open>The sink instance and its class\<close>

text \<open>
  The declarations of \<^verbatim>\<open>struct RosBaseSink\<close> and \<^verbatim>\<open>struct RosBaseSinkClass\<close> live in
  \<^verbatim>\<open>gst_bridge/rosbasesink.h\<close>; the record below has exactly the fields that rosbasesink.cpp
  reads or writes. The three \<^verbatim>\<open>shared_ptr\<close> fields are \<open>None\<close> when null. The offset has the
  type \<^verbatim>\<open>sample_clock_offset\<close> returns, \<^verbatim>\<open>GstClockTimeDiff\<close>.
\<close>

record RosBaseSink =
  node_name :: string
  node_namespace :: string
  ros_context :: "Context option"
  node :: "Node option"
  logger :: "Logger option"
  clock :: "Clock option"
  ros_clock_offset :: GstClockTimeDiff

text \<open>
  The class is a table of function pointers that a concrete sink may fill in; a null pointer
  is \<open>None\<close>. The base class uses a hook only through its return value, so a hook is the
  function from what it is passed to what it returns. What a hook does to the data of its own
  subclass lies outside \<^verbatim>\<open>struct RosBaseSink\<close>; each call is recorded as an action.
\<close>

record RosBaseSinkClass =
  "open" :: "(RosBaseSink \<Rightarrow> bool) option"
  close :: "(RosBaseSink \<Rightarrow> bool) option"
  set_caps :: "(RosBaseSink \<Rightarrow> GstCaps option \<Rightarrow> bool) option"
  get_caps :: "(RosBaseSink \<Rightarrow> GstCaps option \<Rightarrow> GstCaps option) option"
  query :: "(RosBaseSink \<Rightarrow> string \<Rightarrow> bool) option"
  render :: "(RosBaseSink \<Rightarrow> GstBuffer \<Rightarrow> Time \<Rightarrow> GstFlowReturn) option"

text \<open>The actions a call can perform, besides updating the sink.\<close>

datatype action =
    GST_DEBUG string
  | RCLCPP_ERROR "Logger option" string
  | RCLCPP_WARN "Logger option" string
  | G_OBJECT_WARN_INVALID_PROPERTY_ID nat
  | Context_init
  | Node_new string string
  | Call_open
  | Call_close
  | Call_set_caps
  | Call_get_caps
  | Call_render Time
  | Clock_reset
  | Node_reset
  | Context_shutdown_call string
  | Sample_clock_offset
  | Parent_change_state GstStateChange

text \<open>
  What the surrounding pipeline supplies to a call: the base time of the element
  (\<^verbatim>\<open>gst_element_get_base_time\<close>), the value \<^verbatim>\<open>gst_bridge::sample_clock_offset\<close> measures when
  it is called (it is defined in gst\_bridge.cpp and reads two running clocks), and what the
  parent class \<^verbatim>\<open>GstBaseSink\<close> answers to a state change.
\<close>

record Pipeline =
  base_time :: GstClockTime
  sample_clock_offset :: GstClockTimeDiff
  parent_change_state :: "GstStateChange \<Rightarrow> GstStateChangeReturn"

subsection \<open>GObject properties\<close>

definition PROP_0 :: nat where "PROP_0 = 0"
definition PROP_ROS_NAME :: nat where "PROP_ROS_NAME = 1"
definition PROP_ROS_NAMESPACE :: nat where "PROP_ROS_NAMESPACE = 2"

text \<open>\<^verbatim>\<open>rosbasesink_init\<close> runs on the zero-filled instance and sets the two defaults.\<close>

definition rosbasesink_init :: RosBaseSink where
  "rosbasesink_init =
     \<lparr> node_name = ''gst_base_sink_node'', node_namespace = '''',
       ros_context = None, node = None, logger = None, clock = None,
       ros_clock_offset = 0 \<rparr>"

definition rosbasesink_set_property ::
  "RosBaseSink \<Rightarrow> nat \<Rightarrow> string \<Rightarrow> RosBaseSink \<times> action list" where
  "rosbasesink_set_property sink property_id v =
     (if property_id = PROP_ROS_NAME then
        (if node sink \<noteq> None
         then (sink, [GST_DEBUG ''set_property'',
                      RCLCPP_ERROR (logger sink) ''can't change node name once openned''])
         else (sink\<lparr>node_name := v\<rparr>, [GST_DEBUG ''set_property'']))
      else if property_id = PROP_ROS_NAMESPACE then
        (if node sink \<noteq> None
         then (sink, [GST_DEBUG ''set_property'',
                      RCLCPP_ERROR (logger sink) ''can't change node namespace once openned''])
         else (sink\<lparr>node_namespace := v\<rparr>, [GST_DEBUG ''set_property'']))
      else (sink, [GST_DEBUG ''set_property'', G_OBJECT_WARN_INVALID_PROPERTY_ID property_id]))"

definition rosbasesink_get_property :: "RosBaseSink \<Rightarrow> nat \<Rightarrow> string option \<times> action list" where
  "rosbasesink_get_property sink property_id =
     (if property_id = PROP_ROS_NAME then (Some (node_name sink), [GST_DEBUG ''get_property''])
      else if property_id = PROP_ROS_NAMESPACE
      then (Some (node_namespace sink), [GST_DEBUG ''get_property''])
      else (None, [GST_DEBUG ''get_property'', G_OBJECT_WARN_INVALID_PROPERTY_ID property_id]))"

subsection \<open>Opening and closing the ROS node\<close>

text \<open>
  \<^verbatim>\<open>rosbasesink_open\<close>: make and initialise a context, construct the node in it under the
  configured name and namespace, let the subclass create its publishers, then take the
  logger and the clock from the node. The result of the hook is returned, after the logger
  and the clock have been stored; nothing is undone when it is \<open>False\<close>.
\<close>

definition rosbasesink_open ::
  "RosBaseSinkClass \<Rightarrow> RosBaseSink \<Rightarrow> bool \<times> RosBaseSink \<times> action list" where
  "rosbasesink_open sink_class sink =
     (let s1 = sink\<lparr>ros_context := Some Context_valid\<rparr>;
          n = Node (node_name s1) (node_namespace s1);
          s2 = s1\<lparr>node := Some n\<rparr>;
          (result, called) =
             (case open sink_class of
                None \<Rightarrow> (True, [])
              | Some hook \<Rightarrow> (hook s2, [Call_open]));
          s3 = s2\<lparr>logger := Some (get_logger n)\<rparr>;
          s4 = s3\<lparr>clock := Some (get_clock n)\<rparr>
      in (result, s4,
          [GST_DEBUG ''open'', Context_init, Node_new (node_name s1) (node_namespace s1)]
            @ called))"

text \<open>
  \<^verbatim>\<open>rosbasesink_close\<close>: drop the clock, let the subclass clean up, drop the node, shut the
  context down. The last step calls through \<^verbatim>\<open>sink->ros_context\<close>, which is null on a sink
  that was never opened.
\<close>

definition rosbasesink_close ::
  "RosBaseSinkClass \<Rightarrow> RosBaseSink \<Rightarrow> (bool \<times> RosBaseSink \<times> action list) option" where
  "rosbasesink_close sink_class sink =
     (let s1 = sink\<lparr>clock := None\<rparr>;
          (result, called) =
             (case close sink_class of
                None \<Rightarrow> (True, [])
              | Some hook \<Rightarrow> (hook s1, [Call_close]));
          s2 = s1\<lparr>node := None\<rparr>
      in case ros_context s2 of
           None \<Rightarrow> None
         | Some c \<Rightarrow>
             Some (result,
                   s2\<lparr>ros_context := Some (context_shutdown c ''gst closing rosbasesink'')\<rparr>,
                   [GST_DEBUG ''close'', Clock_reset] @ called
                     @ [Node_reset, Context_shutdown_call ''gst closing rosbasesink'']))"

subsection \<open>State changes\<close>

text \<open>
  \<^verbatim>\<open>rosbasesink_change_state\<close> has two switches around the call of the parent class. The first
  opens the node on NULL to READY, returning at once when that fails, and samples the clock
  offset on PAUSED to PLAYING. The second closes the node on READY to NULL, whatever the
  parent class answered, and discards what \<^verbatim>\<open>rosbasesink_close\<close> returns.
\<close>

definition rosbasesink_change_state ::
  "RosBaseSinkClass \<Rightarrow> Pipeline \<Rightarrow> RosBaseSink \<Rightarrow> GstStateChange
     \<Rightarrow> (GstStateChangeReturn \<times> RosBaseSink \<times> action list) option" where
  "rosbasesink_change_state sink_class pipeline sink transition =
     (let (failed, s1, acts1) =
            (case transition of
               GST_STATE_CHANGE_NULL_TO_READY \<Rightarrow>
                 (let (ok, s, acts) = rosbasesink_open sink_class sink
                  in if \<not> ok then (True, s, acts @ [GST_DEBUG ''open failed''])
                     else (False, s, acts))
             | GST_STATE_CHANGE_PAUSED_TO_PLAYING \<Rightarrow>
                 (False, sink\<lparr>ros_clock_offset := sample_clock_offset pipeline\<rparr>,
                  [Sample_clock_offset])
             | _ \<Rightarrow> (False, sink, []))
      in if failed then Some (GST_STATE_CHANGE_FAILURE, s1, acts1)
         else
           (let ret = parent_change_state pipeline transition;
                acts2 = acts1 @ [Parent_change_state transition]
            in case transition of
                 GST_STATE_CHANGE_READY_TO_NULL \<Rightarrow>
                   (case rosbasesink_close sink_class s1 of
                      None \<Rightarrow> None
                    | Some (result, s2, acts3) \<Rightarrow> Some (ret, s2, acts2 @ acts3))
               | _ \<Rightarrow> Some (ret, s1, acts2)))"

subsection \<open>Caps and buffers\<close>

definition rosbasesink_setcaps ::
  "RosBaseSinkClass \<Rightarrow> RosBaseSink \<Rightarrow> GstCaps option \<Rightarrow> bool \<times> RosBaseSink \<times> action list" where
  "rosbasesink_setcaps sink_class sink caps =
     (case set_caps sink_class of
        None \<Rightarrow> (False, sink, [])
      | Some hook \<Rightarrow> (hook sink caps, sink, [Call_set_caps]))"

text \<open>\<^verbatim>\<open>rosbasesink_getcaps\<close> calls the hook, drops what it returns, and returns the filter.\<close>

definition rosbasesink_getcaps ::
  "RosBaseSinkClass \<Rightarrow> RosBaseSink \<Rightarrow> GstCaps option
     \<Rightarrow> GstCaps option \<times> RosBaseSink \<times> action list" where
  "rosbasesink_getcaps sink_class sink filter_caps =
     (case get_caps sink_class of
        None \<Rightarrow> (filter_caps, sink, [])
      | Some hook \<Rightarrow> (filter_caps, sink, [Call_get_caps]))"

text \<open>
  \<^verbatim>\<open>rosbasesink_render\<close> builds the message time before it looks at the hook, and reads the
  clock type through \<^verbatim>\<open>sink->clock\<close>, which is null on a sink that is not open. The sum is
  formed in 64 bits.
\<close>

definition rosbasesink_render ::
  "RosBaseSinkClass \<Rightarrow> Pipeline \<Rightarrow> RosBaseSink \<Rightarrow> GstBuffer
     \<Rightarrow> (GstFlowReturn \<times> RosBaseSink \<times> action list) option" where
  "rosbasesink_render sink_class pipeline sink buf =
     (case clock sink of
        None \<Rightarrow> None
      | Some c \<Rightarrow>
          (let msg_time = \<lparr> nanoseconds = pts buf + base_time pipeline + ros_clock_offset sink,
                            clock_type = get_clock_type c \<rparr>
           in case render sink_class of
                Some hook \<Rightarrow>
                  Some (hook sink buf msg_time, sink, [GST_DEBUG ''render'', Call_render msg_time])
              | None \<Rightarrow>
                  Some (GST_FLOW_OK, sink,
                        [GST_DEBUG ''render'']
                          @ (if node sink \<noteq> None
                             then [RCLCPP_WARN (logger sink)
                                     ''rosbasesink render function not set, dropping buffer'']
                             else []))))"

subsection \<open>The element's state, as the pipeline drives it\<close>

datatype GstState = GST_STATE_NULL | GST_STATE_READY | GST_STATE_PAUSED | GST_STATE_PLAYING

text \<open>\<^verbatim>\<open>GST_STATE_TRANSITION_CURRENT\<close> and \<^verbatim>\<open>GST_STATE_TRANSITION_NEXT\<close>.\<close>

fun transition_current :: "GstStateChange \<Rightarrow> GstState" where
  "transition_current GST_STATE_CHANGE_NULL_TO_READY = GST_STATE_NULL"
| "transition_current GST_STATE_CHANGE_READY_TO_PAUSED = GST_STATE_READY"
| "transition_current GST_STATE_CHANGE_PAUSED_TO_PLAYING = GST_STATE_PAUSED"
| "transition_current GST_STATE_CHANGE_PLAYING_TO_PAUSED = GST_STATE_PLAYING"
| "transition_current GST_STATE_CHANGE_PAUSED_TO_READY = GST_STATE_PAUSED"
| "transition_current GST_STATE_CHANGE_READY_TO_NULL = GST_STATE_READY"
| "transition_current GST_STATE_CHANGE_NULL_TO_NULL = GST_STATE_NULL"
| "transition_current GST_STATE_CHANGE_READY_TO_READY = GST_STATE_READY"
| "transition_current GST_STATE_CHANGE_PAUSED_TO_PAUSED = GST_STATE_PAUSED"
| "transition_current GST_STATE_CHANGE_PLAYING_TO_PLAYING = GST_STATE_PLAYING"

fun transition_next :: "GstStateChange \<Rightarrow> GstState" where
  "transition_next GST_STATE_CHANGE_NULL_TO_READY = GST_STATE_READY"
| "transition_next GST_STATE_CHANGE_READY_TO_PAUSED = GST_STATE_PAUSED"
| "transition_next GST_STATE_CHANGE_PAUSED_TO_PLAYING = GST_STATE_PLAYING"
| "transition_next GST_STATE_CHANGE_PLAYING_TO_PAUSED = GST_STATE_PAUSED"
| "transition_next GST_STATE_CHANGE_PAUSED_TO_READY = GST_STATE_READY"
| "transition_next GST_STATE_CHANGE_READY_TO_NULL = GST_STATE_NULL"
| "transition_next GST_STATE_CHANGE_NULL_TO_NULL = GST_STATE_NULL"
| "transition_next GST_STATE_CHANGE_READY_TO_READY = GST_STATE_READY"
| "transition_next GST_STATE_CHANGE_PAUSED_TO_PAUSED = GST_STATE_PAUSED"
| "transition_next GST_STATE_CHANGE_PLAYING_TO_PLAYING = GST_STATE_PLAYING"

text \<open>
  A point of a run: the state the element is in, the sink as it then is, and, after a
  transition was requested, what \<^verbatim>\<open>rosbasesink_change_state\<close> answered and which actions it
  performed.
\<close>

record point =
  pt_return :: "GstStateChangeReturn option"
  pt_state :: GstState
  pt_sink :: RosBaseSink
  pt_actions :: "action list"

definition at_state :: "GstState \<Rightarrow> RosBaseSink \<Rightarrow> point" where
  "at_state st s = \<lparr> pt_return = None, pt_state = st, pt_sink = s, pt_actions = [] \<rparr>"

datatype run_error = Not_a_transition | Null_dereference

text \<open>
  Modelled from the spec: the surrounding pipeline (GStreamer's \<^verbatim>\<open>GstElement\<close>, which is not
  part of this repository) keeps the current state of the element. It delivers transitions
  one at a time, each a transition of the lattice out of the current state; a transition
  that reports \<^verbatim>\<open>GST_STATE_CHANGE_FAILURE\<close> leaves the state where it was, any other answer
  moves the element to the target state. \<open>element_run\<close> lists every point passed, the starting
  point first.
\<close>

fun element_run ::
  "RosBaseSinkClass \<Rightarrow> point \<Rightarrow> (GstStateChange \<times> Pipeline) list \<Rightarrow> run_error + point list" where
  "element_run sink_class pt [] = Inr [pt]"
| "element_run sink_class pt ((transition, pipeline) # rest) =
     (if transition_current transition \<noteq> pt_state pt then Inl Not_a_transition
      else
        (case rosbasesink_change_state sink_class pipeline (pt_sink pt) transition of
           None \<Rightarrow> Inl Null_dereference
         | Some (ret, s, acts) \<Rightarrow>
             (case element_run sink_class
                     \<lparr> pt_return = Some ret,
                       pt_state = (if ret = GST_STATE_CHANGE_FAILURE then pt_state pt
                                   else transition_next transition),
                       pt_sink = s, pt_actions = acts \<rparr> rest of
                Inl e \<Rightarrow> Inl e
              | Inr points \<Rightarrow> Inr (pt # points))))"

text \<open>The transitions into PLAYING among the requests of a run.\<close>

definition resumes :: "(GstStateChange \<times> Pipeline) list \<Rightarrow> (GstStateChange \<times> Pipeline) list" where
  "resumes steps = filter (\<lambda>(t, p). t = GST_STATE_CHANGE_PAUSED_TO_PLAYING) steps"

text \<open>\<open>precedes a b xs\<close>: \<open>a\<close> occurs in \<open>xs\<close>, and \<open>b\<close> occurs after its first occurrence
  and not before.\<close>

definition precedes :: "'a \<Rightarrow> 'a \<Rightarrow> 'a list \<Rightarrow> bool" where
  "precedes a b xs =
     (a \<noteq> b \<and> b \<in> set (dropWhile (\<lambda>x. x \<noteq> a) xs) \<and> b \<notin> set (takeWhile (\<lambda>x. x \<noteq> a) xs))"

subsection \<open>Concrete classes, pipelines and sinks\<close>

definition no_hooks :: RosBaseSinkClass where
  "no_hooks = \<lparr> open = None, close = None, set_caps = None, get_caps = None,
                query = None, render = None \<rparr>"

text \<open>A class whose open hook reports failure.\<close>

definition failing_open_class :: RosBaseSinkClass where
  "failing_open_class = no_hooks\<lparr> open := Some (\<lambda>s. False) \<rparr>"

text \<open>A class with every hook set; its close hook reports failure.\<close>

definition full_class :: RosBaseSinkClass where
  "full_class =
     \<lparr> open = Some (\<lambda>s. True), close = Some (\<lambda>s. False),
       set_caps = Some (\<lambda>s caps. caps \<noteq> None), get_caps = Some (\<lambda>s caps. None),
       query = Some (\<lambda>s q. False),
       render = Some (\<lambda>s buf t. if payload buf = [] then GST_FLOW_ERROR else GST_FLOW_OK) \<rparr>"

text \<open>A pipeline whose parent class accepts every state change and whose clocks are
  \<open>offset\<close> apart.\<close>

definition steady_pipeline :: "GstClockTimeDiff \<Rightarrow> Pipeline" where
  "steady_pipeline offset =
     \<lparr> base_time = 1000, sample_clock_offset = offset,
       parent_change_state = (\<lambda>t. GST_STATE_CHANGE_SUCCESS) \<rparr>"

definition opened_sink :: RosBaseSink where
  "opened_sink = fst (snd (rosbasesink_open no_hooks rosbasesink_init))"

subsection \<open>Reading a run\<close>

text \<open>The points of a run that went through, and the state and sink it ended in.\<close>

definition run_points :: "run_error + point list \<Rightarrow> point list" where
  "run_points r = (case r of Inl e \<Rightarrow> [] | Inr points \<Rightarrow> points)"

definition run_end :: "run_error + point list \<Rightarrow> (GstState \<times> RosBaseSink) option" where
  "run_end r =
     (case r of
        Inl e \<Rightarrow> None
      | Inr points \<Rightarrow> Some (pt_state (last points), pt_sink (last points)))"

text \<open>
  The connection matches the state: the node is there exactly in READY, PAUSED and PLAYING,
  and so is a context that is initialised and not shut down.
\<close>

definition connection_matches :: "GstState \<Rightarrow> RosBaseSink \<Rightarrow> bool" where
  "connection_matches st s =
     ((node s \<noteq> None \<longleftrightarrow> st \<in> {GST_STATE_READY, GST_STATE_PAUSED, GST_STATE_PLAYING})
    \<and> (ros_context s = Some Context_valid
          \<longleftrightarrow> st \<in> {GST_STATE_READY, GST_STATE_PAUSED, GST_STATE_PLAYING}))"

text \<open>Up to PLAYING and back down to NULL.\<close>

definition full_cycle :: "(GstStateChange \<times> Pipeline) list" where
  "full_cycle =
     [(GST_STATE_CHANGE_NULL_TO_READY, steady_pipeline 0),
      (GST_STATE_CHANGE_READY_TO_PAUSED, steady_pipeline 0),
      (GST_STATE_CHANGE_PAUSED_TO_PLAYING, steady_pipeline 7),
      (GST_STATE_CHANGE_PLAYING_TO_PAUSED, steady_pipeline 0),
      (GST_STATE_CHANGE_PAUSED_TO_READY, steady_pipeline 0),
      (GST_STATE_CHANGE_READY_TO_NULL, steady_pipeline 0)]"

text \<open>From PAUSED into PLAYING, a pause, and into PLAYING again; the clocks are 7 apart at
  the first start and 9 apart at the second.\<close>

definition resume_twice :: "(GstStateChange \<times> Pipeline) list" where
  "resume_twice =
     [(GST_STATE_CHANGE_PAUSED_TO_PLAYING, steady_pipeline 7),
      (GST_STATE_CHANGE_PLAYING_TO_PAUSED, steady_pipeline 8),
      (GST_STATE_CHANGE_PAUSED_TO_PLAYING, steady_pipeline 9)]"

section \<open>Verified properties\<close>

subsection \<open>Auxiliary facts\<close>

lemma opened_sink_eq:
  "opened_sink = \<lparr> node_name = ''gst_base_sink_node'', node_namespace = '''',
       ros_context = Some Context_valid, node = Some (Node ''gst_base_sink_node'' ''''),
       logger = Some (Logger ''gst_base_sink_node''), clock = Some (Clock RCL_ROS_TIME),
       ros_clock_offset = 0 \<rparr>"
  by (simp add: opened_sink_def rosbasesink_open_def no_hooks_def rosbasesink_init_def)

lemma sint_word_of_int_64:
  "- (2 ^ 63) \<le> n \<Longrightarrow> n < 2 ^ 63 \<Longrightarrow> sint (word_of_int n :: 64 word) = n"
  by (simp add: signed_of_int signed_take_bit_int_eq_self)

lemma not_null_iff:
  "st \<in> {GST_STATE_READY, GST_STATE_PAUSED, GST_STATE_PLAYING} \<longleftrightarrow> st \<noteq> GST_STATE_NULL"
  by (cases st) auto

lemma element_run_nonempty: "element_run k pt steps = Inr points \<Longrightarrow> points \<noteq> []"
  by (cases steps) (auto split: if_splits option.splits sum.splits prod.splits)

subsection \<open>Stamping buffers\<close>

text \<open>
  C1. For every buffer rendered while the connection is open (the sink has its clock) by a
  sink whose class has a render hook, the hook that builds the outbound message is handed
  exactly one message time, with nanoseconds
  \<open>presentation_time + element_base_time + clock_offset\<close> and the clock type of the sink's
  clock, and render returns what the hook returns without touching the sink. The sum is the
  64-bit sum of the source, where the presentation time is unsigned, the base time is held in
  a signed local and the offset is signed; wherever the integer sum fits into \<^verbatim>\<open>int64_t\<close>,
  the nanoseconds read as a signed number are that integer sum.
\<close>

theorem render_message_time:
  assumes "clock sink = Some c" and "render sink_class = Some hook"
  shows "rosbasesink_render sink_class pipeline sink buf =
           Some (hook sink buf \<lparr> nanoseconds = pts buf + base_time pipeline + ros_clock_offset sink,
                                  clock_type = get_clock_type c \<rparr>,
                 sink,
                 [GST_DEBUG ''render'',
                  Call_render \<lparr> nanoseconds = pts buf + base_time pipeline + ros_clock_offset sink,
                                clock_type = get_clock_type c \<rparr>])
         \<and> (- (2 ^ 63) \<le> uint (pts buf) + sint (base_time pipeline) + sint (ros_clock_offset sink)
              \<and> uint (pts buf) + sint (base_time pipeline) + sint (ros_clock_offset sink) < 2 ^ 63
            \<longrightarrow> sint (pts buf + base_time pipeline + ros_clock_offset sink)
                  = uint (pts buf) + sint (base_time pipeline) + sint (ros_clock_offset sink))"
proof (intro conjI impI)
  show "rosbasesink_render sink_class pipeline sink buf =
           Some (hook sink buf \<lparr> nanoseconds = pts buf + base_time pipeline + ros_clock_offset sink,
                                  clock_type = get_clock_type c \<rparr>,
                 sink,
                 [GST_DEBUG ''render'',
                  Call_render \<lparr> nanoseconds = pts buf + base_time pipeline + ros_clock_offset sink,
                                clock_type = get_clock_type c \<rparr>])"
    using assms by (simp add: rosbasesink_render_def Let_def)
next
  let ?n = "uint (pts buf) + sint (base_time pipeline) + sint (ros_clock_offset sink)"
  assume r: "- (2 ^ 63) \<le> ?n \<and> ?n < 2 ^ 63"
  have "pts buf + base_time pipeline + ros_clock_offset sink = (word_of_int ?n :: 64 word)"
    by simp
  moreover have "sint (word_of_int ?n :: 64 word) = ?n"
    using r by (intro sint_word_of_int_64) simp_all
  ultimately show "sint (pts buf + base_time pipeline + ros_clock_offset sink) = ?n"
    by simp
qed

theorem render_message_time_witness:
  "rosbasesink_render full_class (steady_pipeline 0) (opened_sink\<lparr>ros_clock_offset := 20\<rparr>)
       \<lparr> pts = 5, payload = [1] \<rparr>
     = Some (GST_FLOW_OK, opened_sink\<lparr>ros_clock_offset := 20\<rparr>,
             [GST_DEBUG ''render'', Call_render \<lparr> nanoseconds = 1025, clock_type = RCL_ROS_TIME \<rparr>])
   \<and> sint (5 + 1000 + 20 :: 64 word) = 1025"
proof -
  have c: "clock (opened_sink\<lparr>ros_clock_offset := 20\<rparr>) = Some (Clock RCL_ROS_TIME)"
    by (simp add: opened_sink_eq)
  have h: "render full_class
             = Some (\<lambda>s buf t. if payload buf = [] then GST_FLOW_ERROR else GST_FLOW_OK)"
    by (simp add: full_class_def)
  from render_message_time [OF c h, of "steady_pipeline 0" "\<lparr> pts = 5, payload = [1] \<rparr>"]
  show ?thesis
    by (simp add: steady_pipeline_def opened_sink_eq)
qed

text \<open>
  On a sink that has its clock, as it has from open to close, a class without a render hook
  makes render discard the buffer: no hook is called, the sink is left as it was, the warning
  is logged through the node's logger, and \<^verbatim>\<open>GST_FLOW_OK\<close> is returned.
\<close>

lemma render_without_hook:
  assumes "render sink_class = None" and "clock sink = Some c"
  shows "rosbasesink_render sink_class pipeline sink buf =
           Some (GST_FLOW_OK, sink,
                 if node sink \<noteq> None
                 then [GST_DEBUG ''render'',
                       RCLCPP_WARN (logger sink)
                         ''rosbasesink render function not set, dropping buffer'']
                 else [GST_DEBUG ''render''])"
  using assms by (simp add: rosbasesink_render_def Let_def)

text \<open>
  Open stores the node and the clock together and close resets both, so over every run the
  node is absent exactly when the clock is. Render reads the clock type through
  \<^verbatim>\<open>sink->clock\<close> before it reaches its own test of \<^verbatim>\<open>sink->node\<close>; hence on every sink
  without a node that a run produces, render dereferences a null pointer, whatever the
  class.
\<close>

lemma change_state_node_clock:
  assumes "rosbasesink_change_state k p s t = Some (ret, s', acts)"
    and "node s = None \<longleftrightarrow> clock s = None"
  shows "node s' = None \<longleftrightarrow> clock s' = None"
  using assms
  by (cases t; auto simp: rosbasesink_change_state_def rosbasesink_open_def rosbasesink_close_def
        Let_def split: option.splits if_splits prod.splits)

lemma element_run_node_clock:
  "element_run k pt steps = Inr points \<Longrightarrow>
   (node (pt_sink pt) = None \<longleftrightarrow> clock (pt_sink pt) = None) \<Longrightarrow>
   q \<in> set points \<Longrightarrow> (node (pt_sink q) = None \<longleftrightarrow> clock (pt_sink q) = None)"
proof (induction steps arbitrary: pt points)
  case Nil
  then show ?case by auto
next
  case (Cons step steps)
  obtain t p where step: "step = (t, p)" by (cases step)
  from Cons.prems(1) step obtain ret s acts rest where
    cs: "rosbasesink_change_state k p (pt_sink pt) t = Some (ret, s, acts)"
    and run: "element_run k \<lparr> pt_return = Some ret,
                 pt_state = (if ret = GST_STATE_CHANGE_FAILURE then pt_state pt
                             else transition_next t),
                 pt_sink = s, pt_actions = acts \<rparr> steps = Inr rest"
    and points: "points = pt # rest"
    by (auto split: if_splits option.splits sum.splits)
  have next_ok: "node s = None \<longleftrightarrow> clock s = None"
    using change_state_node_clock [OF cs Cons.prems(2)] .
  show ?case
  proof (cases "q = pt")
    case True
    with Cons.prems(2) show ?thesis by simp
  next
    case False
    with Cons.prems(3) points have "q \<in> set rest" by simp
    from Cons.IH [OF run _ this] next_ok show ?thesis by simp
  qed
qed

lemma render_crashes_without_node:
  assumes "element_run k (at_state GST_STATE_NULL rosbasesink_init) steps = Inr points"
    and "q \<in> set points" and "node (pt_sink q) = None"
  shows "rosbasesink_render k' p (pt_sink q) buf = None"
proof -
  have "node (pt_sink (at_state GST_STATE_NULL rosbasesink_init)) = None
          \<longleftrightarrow> clock (pt_sink (at_state GST_STATE_NULL rosbasesink_init)) = None"
    by (simp add: at_state_def rosbasesink_init_def)
  from element_run_node_clock [OF assms(1) this assms(2)] assms(3)
  have "clock (pt_sink q) = None" by simp
  then show ?thesis by (simp add: rosbasesink_render_def)
qed

text \<open>
  C5. On a sink that is not open, of a class without a render hook, a delivered buffer should
  be dropped with \<^verbatim>\<open>GST_FLOW_OK\<close>. The code does not get that far: on the freshly
  initialised sink render returns no flow value, because it dereferences the null
  \<^verbatim>\<open>sink->clock\<close> first.
\<close>

theorem render_on_closed_sink:
  "rosbasesink_render no_hooks (steady_pipeline 0) rosbasesink_init \<lparr> pts = 5, payload = [1] \<rparr>
     = None"
  by (simp add: rosbasesink_render_def rosbasesink_init_def)

subsection \<open>Identity properties\<close>

text \<open>
  C7. Setting the node name or the node namespace while the node exists logs an error through
  the sink's logger and leaves the whole sink as it was; while the node does not exist it
  replaces the stored value by the supplied string, logs no error, and changes no other field.
\<close>

theorem set_property_identity:
  assumes "property_id = PROP_ROS_NAME \<or> property_id = PROP_ROS_NAMESPACE"
  shows "(node sink \<noteq> None \<longrightarrow>
            fst (rosbasesink_set_property sink property_id v) = sink \<and>
            (\<exists>msg. RCLCPP_ERROR (logger sink) msg
                      \<in> set (snd (rosbasesink_set_property sink property_id v))))
       \<and> (node sink = None \<longrightarrow>
            fst (rosbasesink_set_property sink property_id v) =
              (if property_id = PROP_ROS_NAME then sink\<lparr>node_name := v\<rparr>
               else sink\<lparr>node_namespace := v\<rparr>) \<and>
            snd (rosbasesink_set_property sink property_id v) = [GST_DEBUG ''set_property''])"
  using assms
  by (auto simp: rosbasesink_set_property_def PROP_ROS_NAME_def PROP_ROS_NAMESPACE_def)

theorem set_property_identity_witness:
  "fst (rosbasesink_set_property opened_sink PROP_ROS_NAME ''talker'') = opened_sink
   \<and> node_name (fst (rosbasesink_set_property opened_sink PROP_ROS_NAME ''talker''))
       = ''gst_base_sink_node''
   \<and> rosbasesink_set_property rosbasesink_init PROP_ROS_NAMESPACE ''robot''
       = (rosbasesink_init\<lparr>node_namespace := ''robot''\<rparr>, [GST_DEBUG ''set_property''])"
proof -
  have a: "PROP_ROS_NAME = PROP_ROS_NAME \<or> PROP_ROS_NAME = PROP_ROS_NAMESPACE"
    by simp
  have b: "PROP_ROS_NAMESPACE = PROP_ROS_NAME \<or> PROP_ROS_NAMESPACE = PROP_ROS_NAMESPACE"
    by simp
  have n: "node opened_sink \<noteq> None" and m: "node rosbasesink_init = None"
    by (simp_all add: opened_sink_eq rosbasesink_init_def)
  have d: "PROP_ROS_NAMESPACE \<noteq> PROP_ROS_NAME"
    by (simp add: PROP_ROS_NAME_def PROP_ROS_NAMESPACE_def)
  from set_property_identity [OF a, of opened_sink "''talker''"]
       set_property_identity [OF b, of rosbasesink_init "''robot''"] n m d
  show ?thesis
    by (simp add: opened_sink_eq prod_eq_iff)
qed

subsection \<open>Caps\<close>

text \<open>
  C9. The get-caps query returns the filter it was given, for every class, every sink and
  every filter, so two calls with the same filter return the same result whatever happened in
  between; it leaves every field of the sink as it was, and the only action it can perform is
  the call of the subclass hook.
\<close>

theorem getcaps_returns_filter:
  "fst (rosbasesink_getcaps sink_class sink filter_caps) = filter_caps
   \<and> fst (snd (rosbasesink_getcaps sink_class sink filter_caps)) = sink
   \<and> fst (rosbasesink_getcaps sink_class' sink' filter_caps)
       = fst (rosbasesink_getcaps sink_class sink filter_caps)
   \<and> set (snd (snd (rosbasesink_getcaps sink_class sink filter_caps))) \<subseteq> {Call_get_caps}"
  by (simp add: rosbasesink_getcaps_def split: option.split)

text \<open>
  C10. When the class has no \<^verbatim>\<open>set_caps\<close> hook, set-caps returns \<^verbatim>\<open>FALSE\<close> for every caps
  value, without touching the sink.
\<close>

theorem setcaps_without_hook:
  assumes "set_caps sink_class = None"
  shows "rosbasesink_setcaps sink_class sink caps = (False, sink, [])"
  using assms by (simp add: rosbasesink_setcaps_def)

theorem setcaps_without_hook_witness:
  "rosbasesink_setcaps no_hooks opened_sink (Some ''audio/x-raw'') = (False, opened_sink, [])"
proof -
  have h: "set_caps no_hooks = None"
    by (simp add: no_hooks_def)
  from setcaps_without_hook [OF h, of opened_sink "Some ''audio/x-raw''"]
  show ?thesis .
qed

subsection \<open>Sampling the clock offset\<close>

lemma open_offset:
  "rosbasesink_open k s = (ok, s', acts) \<Longrightarrow>
     ros_clock_offset s' = ros_clock_offset s \<and> Sample_clock_offset \<notin> set acts"
  by (auto simp: rosbasesink_open_def Let_def split: option.splits prod.splits)

lemma close_offset:
  "rosbasesink_close k s = Some (r, s', acts) \<Longrightarrow>
     ros_clock_offset s' = ros_clock_offset s \<and> Sample_clock_offset \<notin> set acts"
  by (auto simp: rosbasesink_close_def Let_def split: option.splits prod.splits)

text \<open>One call: the offset is sampled once and stored on PAUSED to PLAYING, and neither
  sampled nor written on any other transition.\<close>

lemma change_state_offset:
  assumes "rosbasesink_change_state k p s t = Some (ret, s', acts)"
  shows "count_list acts Sample_clock_offset
           = (if t = GST_STATE_CHANGE_PAUSED_TO_PLAYING then 1 else 0)
       \<and> ros_clock_offset s' =
           (if t = GST_STATE_CHANGE_PAUSED_TO_PLAYING then sample_clock_offset p
            else ros_clock_offset s)"
proof (cases t)
  case GST_STATE_CHANGE_NULL_TO_READY
  obtain ok s1 a1 where o: "rosbasesink_open k s = (ok, s1, a1)"
    by (cases "rosbasesink_open k s") auto
  from open_offset [OF o] assms GST_STATE_CHANGE_NULL_TO_READY o show ?thesis
    by (auto simp: rosbasesink_change_state_def Let_def count_list_0_iff split: if_splits)
next
  case GST_STATE_CHANGE_READY_TO_NULL
  with assms obtain r a3 where c: "rosbasesink_close k s = Some (r, s', a3)"
    and a: "acts = [Parent_change_state t] @ a3"
    by (auto simp: rosbasesink_change_state_def Let_def split: option.splits)
  from close_offset [OF c] a GST_STATE_CHANGE_READY_TO_NULL show ?thesis
    by (auto simp: count_list_0_iff)
qed (use assms in \<open>auto simp: rosbasesink_change_state_def Let_def\<close>)

lemma element_run_offset:
  "element_run k pt steps = Inr points \<Longrightarrow>
     count_list (concat (map pt_actions points)) Sample_clock_offset
       = count_list (pt_actions pt) Sample_clock_offset + length (resumes steps)
   \<and> ros_clock_offset (pt_sink (last points))
       = (if resumes steps = [] then ros_clock_offset (pt_sink pt)
          else sample_clock_offset (snd (last (resumes steps))))"
proof (induction steps arbitrary: pt points)
  case Nil
  then show ?case by (auto simp: resumes_def)
next
  case (Cons step steps)
  obtain t p where step: "step = (t, p)" by (cases step)
  from Cons.prems step obtain ret s acts rest where
    cs: "rosbasesink_change_state k p (pt_sink pt) t = Some (ret, s, acts)"
    and run: "element_run k \<lparr> pt_return = Some ret,
                 pt_state = (if ret = GST_STATE_CHANGE_FAILURE then pt_state pt
                             else transition_next t),
                 pt_sink = s, pt_actions = acts \<rparr> steps = Inr rest"
    and points: "points = pt # rest"
    by (auto split: if_splits option.splits sum.splits)
  note ih = Cons.IH [OF run]
  note one = change_state_offset [OF cs]
  have ne: "rest \<noteq> []" using run by (rule element_run_nonempty)
  show ?case
  proof (cases "t = GST_STATE_CHANGE_PAUSED_TO_PLAYING")
    case True
    with ih one ne points step show ?thesis by (auto simp: resumes_def)
  next
    case False
    with ih one ne points step show ?thesis by (auto simp: resumes_def)
  qed
qed

text \<open>
  C4. Over every run of the element, from any state and any sink, the clock offset has been
  sampled exactly as many times as a PAUSED to PLAYING transition was delivered, and the
  stored offset at the end is the sample taken by the last of them, or the offset the run
  started with when there was none. So every PAUSED to PLAYING transition samples once and
  stores its sample, a second start after a pause stores the second sample, and no other
  transition samples or writes the offset.
\<close>

theorem offset_sampled_on_resume_only:
  assumes "element_run sink_class (at_state st sink) steps = Inr points"
  shows "count_list (concat (map pt_actions points)) Sample_clock_offset = length (resumes steps)
       \<and> ros_clock_offset (pt_sink (last points))
           = (if resumes steps = [] then ros_clock_offset sink
              else sample_clock_offset (snd (last (resumes steps))))"
  using element_run_offset [OF assms] by (simp add: at_state_def)

lemma resume_twice_runs:
  "element_run full_class (at_state GST_STATE_PAUSED opened_sink) resume_twice
     = Inr (run_points (element_run full_class (at_state GST_STATE_PAUSED opened_sink) resume_twice))"
  by (simp add: resume_twice_def at_state_def run_points_def rosbasesink_change_state_def
        steady_pipeline_def Let_def)

theorem offset_sampled_on_resume_only_witness:
  "map (\<lambda>q. (pt_state q, ros_clock_offset (pt_sink q)))
       (run_points (element_run full_class (at_state GST_STATE_PAUSED opened_sink) resume_twice))
     = [(GST_STATE_PAUSED, 0), (GST_STATE_PLAYING, 7), (GST_STATE_PAUSED, 7),
        (GST_STATE_PLAYING, 9)]
   \<and> count_list (concat (map pt_actions
        (run_points (element_run full_class (at_state GST_STATE_PAUSED opened_sink) resume_twice))))
        Sample_clock_offset = 2"
proof -
  have two: "length (resumes resume_twice) = 2"
    by (simp add: resumes_def resume_twice_def)
  have offsets: "map (\<lambda>q. (pt_state q, ros_clock_offset (pt_sink q)))
       (run_points (element_run full_class (at_state GST_STATE_PAUSED opened_sink) resume_twice))
     = [(GST_STATE_PAUSED, 0), (GST_STATE_PLAYING, 7), (GST_STATE_PAUSED, 7),
        (GST_STATE_PLAYING, 9)]"
    by (simp add: resume_twice_def at_state_def run_points_def rosbasesink_change_state_def
          steady_pipeline_def opened_sink_eq Let_def)
  from offset_sampled_on_resume_only [OF resume_twice_runs] two offsets
  show ?thesis by simp
qed

subsection \<open>Closing\<close>

text \<open>
  C6. For every READY to NULL transition of a sink that has been opened (it has a context),
  whatever close hook the class has and whatever that hook reports, the call returns what the
  parent class answered, the clock and the node are reset and the context is shut down.
  Neither the return value nor the resulting sink depends on the hook.
\<close>

theorem teardown_ignores_close_hook:
  assumes "ros_context sink = Some c"
  shows "\<exists>acts. rosbasesink_change_state (sink_class\<lparr>close := hook\<rparr>) pipeline sink
                    GST_STATE_CHANGE_READY_TO_NULL
               = Some (parent_change_state pipeline GST_STATE_CHANGE_READY_TO_NULL,
                       sink\<lparr>clock := None, node := None,
                            ros_context := Some (context_shutdown c ''gst closing rosbasesink'')\<rparr>,
                       acts)
               \<and> Node_reset \<in> set acts
               \<and> Context_shutdown_call ''gst closing rosbasesink'' \<in> set acts"
  using assms
  by (cases hook) (simp_all add: rosbasesink_change_state_def rosbasesink_close_def Let_def)

theorem teardown_ignores_close_hook_witness:
  "close full_class = Some (\<lambda>s. False)
   \<and> (\<exists>acts. rosbasesink_change_state full_class (steady_pipeline 0) opened_sink
                GST_STATE_CHANGE_READY_TO_NULL
              = Some (GST_STATE_CHANGE_SUCCESS,
                      opened_sink\<lparr>clock := None, node := None,
                          ros_context := Some (Context_shutdown ''gst closing rosbasesink'')\<rparr>,
                      acts))"
proof -
  have c: "ros_context opened_sink = Some Context_valid"
    by (simp add: opened_sink_eq)
  have k: "full_class\<lparr>close := Some (\<lambda>s. False)\<rparr> = full_class"
    by (simp add: full_class_def)
  from teardown_ignores_close_hook [OF c, where sink_class = full_class
         and hook = "Some (\<lambda>s. False)" and pipeline = "steady_pipeline 0"]
  show ?thesis
    by (auto simp: k full_class_def steady_pipeline_def context_shutdown_def)
qed

text \<open>
  C8. Whenever close goes through, its actions are in this order: the subclass close hook (when
  the class has one) is called once, on a sink that still has its node and its context; then
  the node is reset, once; then the context is shut down, once.
\<close>

theorem close_order:
  assumes "rosbasesink_close sink_class sink = Some (result, sink', acts)"
  shows "count_list acts Node_reset = 1
       \<and> count_list acts (Context_shutdown_call ''gst closing rosbasesink'') = 1
       \<and> precedes Node_reset (Context_shutdown_call ''gst closing rosbasesink'') acts
       \<and> (\<forall>hook. close sink_class = Some hook \<longrightarrow>
             count_list acts Call_close = 1
           \<and> precedes Call_close Node_reset acts
           \<and> precedes Call_close (Context_shutdown_call ''gst closing rosbasesink'') acts
           \<and> result = hook (sink\<lparr>clock := None\<rparr>))
       \<and> (close sink_class = None \<longrightarrow> Call_close \<notin> set acts)"
  using assms
  by (auto simp: rosbasesink_close_def Let_def precedes_def split: option.splits)

theorem close_order_witness:
  "rosbasesink_close full_class opened_sink
     = Some (False,
             opened_sink\<lparr>clock := None, node := None,
                         ros_context := Some (Context_shutdown ''gst closing rosbasesink'')\<rparr>,
             [GST_DEBUG ''close'', Clock_reset, Call_close, Node_reset,
              Context_shutdown_call ''gst closing rosbasesink''])
   \<and> precedes Call_close Node_reset
        [GST_DEBUG ''close'', Clock_reset, Call_close, Node_reset,
         Context_shutdown_call ''gst closing rosbasesink'']
   \<and> precedes Node_reset (Context_shutdown_call ''gst closing rosbasesink'')
        [GST_DEBUG ''close'', Clock_reset, Call_close, Node_reset,
         Context_shutdown_call ''gst closing rosbasesink'']"
proof -
  have run: "rosbasesink_close full_class opened_sink
     = Some (False,
             opened_sink\<lparr>clock := None, node := None,
                         ros_context := Some (Context_shutdown ''gst closing rosbasesink'')\<rparr>,
             [GST_DEBUG ''close'', Clock_reset, Call_close, Node_reset,
              Context_shutdown_call ''gst closing rosbasesink''])"
    by (simp add: rosbasesink_close_def full_class_def opened_sink_eq context_shutdown_def Let_def)
  from close_order [OF run] run show ?thesis
    by (simp add: full_class_def)
qed

subsection \<open>The connection over the life of the element\<close>

text \<open>What one state change that did not fail does to the node and the context.\<close>

lemma change_state_connection:
  assumes "rosbasesink_change_state k p s t = Some (ret, s', acts)"
    and "ret \<noteq> GST_STATE_CHANGE_FAILURE"
  shows "node s' = (if t = GST_STATE_CHANGE_NULL_TO_READY
                    then Some (Node (node_name s) (node_namespace s))
                    else if t = GST_STATE_CHANGE_READY_TO_NULL then None else node s)"
    and "t = GST_STATE_CHANGE_NULL_TO_READY \<Longrightarrow> ros_context s' = Some Context_valid"
    and "t = GST_STATE_CHANGE_READY_TO_NULL \<Longrightarrow> ros_context s' \<noteq> Some Context_valid"
    and "t \<noteq> GST_STATE_CHANGE_NULL_TO_READY \<Longrightarrow> t \<noteq> GST_STATE_CHANGE_READY_TO_NULL
           \<Longrightarrow> ros_context s' = ros_context s"
  using assms
  by (cases t; auto simp: rosbasesink_change_state_def rosbasesink_open_def rosbasesink_close_def
        context_shutdown_def Let_def split: option.splits if_splits prod.splits Context.splits)+

lemma change_state_keeps_match:
  assumes cs: "rosbasesink_change_state k p s t = Some (ret, s', acts)"
    and ok: "ret \<noteq> GST_STATE_CHANGE_FAILURE"
    and inv: "connection_matches (transition_current t) s"
  shows "connection_matches (transition_next t) s'"
  using change_state_connection [OF cs ok] inv
  by (cases t) (auto simp: connection_matches_def)

lemma element_run_keeps_match:
  "element_run k pt steps = Inr points \<Longrightarrow>
   \<forall>q \<in> set points. pt_return q \<noteq> Some GST_STATE_CHANGE_FAILURE \<Longrightarrow>
   connection_matches (pt_state pt) (pt_sink pt) \<Longrightarrow>
   \<forall>q \<in> set points. connection_matches (pt_state q) (pt_sink q)"
proof (induction steps arbitrary: pt points)
  case Nil
  then show ?case by auto
next
  case (Cons step steps)
  obtain t p where step: "step = (t, p)" by (cases step)
  from Cons.prems(1) step obtain ret s acts rest where
    cur: "transition_current t = pt_state pt"
    and cs: "rosbasesink_change_state k p (pt_sink pt) t = Some (ret, s, acts)"
    and run: "element_run k \<lparr> pt_return = Some ret,
                 pt_state = (if ret = GST_STATE_CHANGE_FAILURE then pt_state pt
                             else transition_next t),
                 pt_sink = s, pt_actions = acts \<rparr> steps = Inr rest"
    and points: "points = pt # rest"
    by (auto split: if_splits option.splits sum.splits)
  have "\<lparr> pt_return = Some ret,
          pt_state = (if ret = GST_STATE_CHANGE_FAILURE then pt_state pt else transition_next t),
          pt_sink = s, pt_actions = acts \<rparr> \<in> set rest"
    using run by (cases steps) (auto split: if_splits option.splits sum.splits prod.splits)
  with Cons.prems(2) points have ok: "ret \<noteq> GST_STATE_CHANGE_FAILURE" by fastforce
  have "connection_matches (transition_next t) s"
    using change_state_keeps_match [OF cs ok] Cons.prems(3) cur by simp
  with Cons.IH [OF run] Cons.prems(2,3) points ok show ?case by simp
qed

text \<open>
  C2, as amended. Take a sink in NULL with no node and no valid context, and any sequence of
  lattice transitions from there in which no transition reports failure. Then at every point
  the node is non-null if and only if the state is READY, PAUSED or PLAYING, and the context
  is valid (initialised and not shut down) if and only if the state is one of these: both
  are made on NULL to READY, and READY to NULL resets the node and shuts the context down.
\<close>

theorem connection_follows_state:
  assumes "node sink = None" and "ros_context sink \<noteq> Some Context_valid"
    and "element_run sink_class (at_state GST_STATE_NULL sink) steps = Inr points"
    and "\<forall>q \<in> set points. pt_return q \<noteq> Some GST_STATE_CHANGE_FAILURE"
  shows "\<forall>q \<in> set points.
           (node (pt_sink q) \<noteq> None
              \<longleftrightarrow> pt_state q \<in> {GST_STATE_READY, GST_STATE_PAUSED, GST_STATE_PLAYING})
         \<and> (ros_context (pt_sink q) = Some Context_valid
              \<longleftrightarrow> pt_state q \<in> {GST_STATE_READY, GST_STATE_PAUSED, GST_STATE_PLAYING})"
proof -
  have "connection_matches (pt_state (at_state GST_STATE_NULL sink))
          (pt_sink (at_state GST_STATE_NULL sink))"
    using assms(1,2) by (simp add: connection_matches_def at_state_def)
  from element_run_keeps_match [OF assms(3,4) this] show ?thesis
    by (simp add: connection_matches_def)
qed

lemma full_cycle_runs:
  "element_run full_class (at_state GST_STATE_NULL rosbasesink_init) full_cycle
     = Inr (run_points (element_run full_class (at_state GST_STATE_NULL rosbasesink_init) full_cycle))"
  by (simp add: full_cycle_def at_state_def run_points_def rosbasesink_change_state_def
        rosbasesink_open_def rosbasesink_close_def full_class_def rosbasesink_init_def
        steady_pipeline_def context_shutdown_def Let_def)

lemma full_cycle_succeeds:
  "\<forall>q \<in> set (run_points (element_run full_class (at_state GST_STATE_NULL rosbasesink_init)
                            full_cycle)).
     pt_return q \<noteq> Some GST_STATE_CHANGE_FAILURE"
  by (simp add: full_cycle_def at_state_def run_points_def rosbasesink_change_state_def
        rosbasesink_open_def rosbasesink_close_def full_class_def rosbasesink_init_def
        steady_pipeline_def context_shutdown_def Let_def)

theorem connection_follows_state_witness:
  "map (\<lambda>q. (pt_state q, node (pt_sink q) \<noteq> None, ros_context (pt_sink q) = Some Context_valid))
       (run_points (element_run full_class (at_state GST_STATE_NULL rosbasesink_init) full_cycle))
     = [(GST_STATE_NULL, False, False), (GST_STATE_READY, True, True),
        (GST_STATE_PAUSED, True, True), (GST_STATE_PLAYING, True, True),
        (GST_STATE_PAUSED, True, True), (GST_STATE_READY, True, True),
        (GST_STATE_NULL, False, False)]"
proof -
  let ?points = "run_points (element_run full_class (at_state GST_STATE_NULL rosbasesink_init)
                               full_cycle)"
  have n: "node rosbasesink_init = None"
    and c: "ros_context rosbasesink_init \<noteq> Some Context_valid"
    by (simp_all add: rosbasesink_init_def)
  have states: "map pt_state ?points
     = [GST_STATE_NULL, GST_STATE_READY, GST_STATE_PAUSED, GST_STATE_PLAYING, GST_STATE_PAUSED,
        GST_STATE_READY, GST_STATE_NULL]"
    by (simp add: full_cycle_def at_state_def run_points_def rosbasesink_change_state_def
          rosbasesink_open_def rosbasesink_close_def full_class_def rosbasesink_init_def
          steady_pipeline_def context_shutdown_def Let_def)
  have "\<And>q. q \<in> set ?points \<Longrightarrow>
          (pt_state q, node (pt_sink q) \<noteq> None, ros_context (pt_sink q) = Some Context_valid)
            = (pt_state q, pt_state q \<noteq> GST_STATE_NULL, pt_state q \<noteq> GST_STATE_NULL)"
    using connection_follows_state [OF n c full_cycle_runs full_cycle_succeeds]
    unfolding not_null_iff by blast
  then have "map (\<lambda>q. (pt_state q, node (pt_sink q) \<noteq> None,
                       ros_context (pt_sink q) = Some Context_valid)) ?points
     = map (\<lambda>q. (pt_state q, pt_state q \<noteq> GST_STATE_NULL, pt_state q \<noteq> GST_STATE_NULL)) ?points"
    by (rule map_cong [OF refl])
  also have "\<dots> = map (\<lambda>st. (st, st \<noteq> GST_STATE_NULL, st \<noteq> GST_STATE_NULL)) (map pt_state ?points)"
    unfolding map_map comp_def ..
  also have "\<dots> = [(GST_STATE_NULL, False, False), (GST_STATE_READY, True, True),
        (GST_STATE_PAUSED, True, True), (GST_STATE_PLAYING, True, True),
        (GST_STATE_PAUSED, True, True), (GST_STATE_READY, True, True),
        (GST_STATE_NULL, False, False)]"
    unfolding states by simp
  finally show ?thesis .
qed

text \<open>
  C2, as stated, fails. After NULL to READY and READY to NULL, both successful, the element is
  in NULL and \<^verbatim>\<open>ros_context\<close> is not null: close shuts the context down and keeps the pointer.
  And after a NULL to READY on which the open hook reports failure, the element is still in
  NULL while the context and the node are there.
\<close>

theorem connection_outside_window:
  "run_end (element_run no_hooks (at_state GST_STATE_NULL rosbasesink_init)
              [(GST_STATE_CHANGE_NULL_TO_READY, steady_pipeline 0),
               (GST_STATE_CHANGE_READY_TO_NULL, steady_pipeline 0)])
     = Some (GST_STATE_NULL,
             rosbasesink_init\<lparr> ros_context := Some (Context_shutdown ''gst closing rosbasesink''),
                                logger := Some (Logger ''gst_base_sink_node'') \<rparr>)
   \<and> run_end (element_run failing_open_class (at_state GST_STATE_NULL rosbasesink_init)
              [(GST_STATE_CHANGE_NULL_TO_READY, steady_pipeline 0)])
     = Some (GST_STATE_NULL,
             rosbasesink_init\<lparr> ros_context := Some Context_valid,
                                node := Some (Node ''gst_base_sink_node'' ''''),
                                logger := Some (Logger ''gst_base_sink_node''),
                                clock := Some (Clock RCL_ROS_TIME) \<rparr>)"
  by (simp add: at_state_def run_end_def rosbasesink_change_state_def
        rosbasesink_open_def rosbasesink_close_def no_hooks_def failing_open_class_def
        rosbasesink_init_def steady_pipeline_def context_shutdown_def Let_def)

text \<open>
  C3. On a fresh sink whose class has an open hook that reports failure, NULL to READY returns
  \<^verbatim>\<open>GST_STATE_CHANGE_FAILURE\<close> without calling the parent class, and the sink it leaves behind
  has the context, the node, the logger and the clock that open made: nothing is released.
\<close>

theorem failed_open_keeps_connection:
  "rosbasesink_change_state failing_open_class (steady_pipeline 0) rosbasesink_init
       GST_STATE_CHANGE_NULL_TO_READY
     = Some (GST_STATE_CHANGE_FAILURE,
             rosbasesink_init\<lparr> ros_context := Some Context_valid,
                                node := Some (Node ''gst_base_sink_node'' ''''),
                                logger := Some (Logger ''gst_base_sink_node''),
                                clock := Some (Clock RCL_ROS_TIME) \<rparr>,
             [GST_DEBUG ''open'', Context_init, Node_new ''gst_base_sink_node'' '''', Call_open,
              GST_DEBUG ''open failed''])"
  by (simp add: rosbasesink_change_state_def rosbasesink_open_def failing_open_class_def
        no_hooks_def rosbasesink_init_def Let_def)

subsection \<open>Runs never close a sink that was not opened\<close>

lemma change_state_context:
  assumes "rosbasesink_change_state k p s t = Some (ret, s', acts)"
  shows "t = GST_STATE_CHANGE_NULL_TO_READY \<or> ros_context s \<noteq> None \<Longrightarrow> ros_context s' \<noteq> None"
  using assms
  by (cases t; auto simp: rosbasesink_change_state_def rosbasesink_open_def rosbasesink_close_def
        Let_def split: option.splits if_splits prod.splits)

lemma change_state_defined:
  assumes "t = GST_STATE_CHANGE_READY_TO_NULL \<longrightarrow> ros_context s \<noteq> None"
  shows "rosbasesink_change_state k p s t \<noteq> None"
  using assms
  by (cases t; auto simp: rosbasesink_change_state_def rosbasesink_open_def rosbasesink_close_def
        Let_def split: option.splits if_splits prod.splits)

text \<open>
  A run that starts in NULL, or with a context, never dereferences a null context, whatever
  the hooks and the parent class answer: the only way it can stop is a request that is not a
  transition out of the current state.
\<close>

lemma element_run_never_dereferences_null:
  assumes "pt_state pt \<noteq> GST_STATE_NULL \<longrightarrow> ros_context (pt_sink pt) \<noteq> None"
  shows "element_run k pt steps \<noteq> Inl Null_dereference"
  using assms
proof (induction steps arbitrary: pt)
  case Nil
  then show ?case by simp
next
  case (Cons step steps)
  obtain t p where step: "step = (t, p)" by (cases step)
  show ?case
  proof (cases "transition_current t = pt_state pt")
    case False
    with step show ?thesis by simp
  next
    case True
    with Cons.prems have "t = GST_STATE_CHANGE_READY_TO_NULL \<longrightarrow> ros_context (pt_sink pt) \<noteq> None"
      by auto
    from change_state_defined [OF this, of k p] obtain ret s acts where
      cs: "rosbasesink_change_state k p (pt_sink pt) t = Some (ret, s, acts)"
      by (cases "rosbasesink_change_state k p (pt_sink pt) t") auto
    let ?next = "\<lparr> pt_return = Some ret,
                 pt_state = (if ret = GST_STATE_CHANGE_FAILURE then pt_state pt
                             else transition_next t),
                 pt_sink = s, pt_actions = acts \<rparr>"
    have "pt_state ?next \<noteq> GST_STATE_NULL \<longrightarrow> ros_context (pt_sink ?next) \<noteq> None"
      using change_state_context [OF cs] Cons.prems True by (cases t) auto
    from Cons.IH [OF this] True cs step show ?thesis
      by (auto split: sum.splits)
  qed
qed

end
